theory Spec2Isabelle
  imports Main
begin

section \<open>The trust-bundle controller (pkg/controller/namespace.go)\<close>

text \<open>
  The file holds two revisions of the controller, one after the other. The first keeps
  the desired ConfigMap data as a map in the enforcer (\<open>data\<close>), the second asks a
  getter for the root CA (\<open>rootCA\<close>) and builds the one-entry map itself. Definitions
  of the first revision carry the suffix 1, those of the second the suffix 2.
\<close>

subsection \<open>Kubernetes objects and the client\<close>

definition IstioConfigLabelKey :: string where
  "IstioConfigLabelKey = ''istio.io/config''"

datatype namespaced_name = NamespacedName (nn_Namespace: string) (nn_Name: string)

text \<open>
  \<open>corev1.ConfigMap\<close>, with the fields the controller reads and writes. A Go map that
  is nil reads like an empty one; both are the empty map here. The controller allocates
  a nil map before every store into it, so no store into a nil map occurs.
\<close>

record ConfigMap =
  cm_Name :: string
  cm_Namespace :: string
  Labels :: "string \<rightharpoonup> string"
  Data :: "string \<rightharpoonup> string"

text \<open>\<open>corev1.NamespacePhase\<close> is a string type.\<close>

type_synonym NamespacePhase = string

definition NamespaceTerminating :: NamespacePhase where
  "NamespaceTerminating = ''Terminating''"

record Namespace =
  ns_Name :: string
  Phase :: NamespacePhase

text \<open>
  The errors of the API machinery, by status reason. \<open>apierrors.IsNotFound\<close> is applied
  to a non-nil error here; on nil it is false, which is the branch \<open>Inr\<close> of a read
  and \<open>None\<close> of a write.
\<close>

datatype api_error = NotFound | AlreadyExists | Conflict | ServerError string

definition IsNotFound :: "api_error \<Rightarrow> bool" where
  "IsNotFound err = (err = NotFound)"

text \<open>
  The error a controller function returns: the client's error as it is, or wrapped by
  \<open>fmt.Errorf("failed to get %q: %s", namespacedName, err)\<close>.
\<close>

datatype error = FailedToGet namespaced_name api_error | ClientError api_error

text \<open>
  \<open>client.Client\<close> of controller-runtime is an interface implemented outside this
  repository. It is a parameter of the model: each operation takes the state of the
  cluster and returns its result with the new state. \<open>Get\<close> is one method in Go,
  dispatched on the type of the object passed; it is split by that type.
\<close>

record 's Client =
  GetNamespace :: "'s \<Rightarrow> namespaced_name \<Rightarrow> (api_error + Namespace) \<times> 's"
  GetConfigMap :: "'s \<Rightarrow> namespaced_name \<Rightarrow> (api_error + ConfigMap) \<times> 's"
  Create :: "'s \<Rightarrow> ConfigMap \<Rightarrow> api_error option \<times> 's"
  Update :: "'s \<Rightarrow> ConfigMap \<Rightarrow> api_error option \<times> 's"
  Delete :: "'s \<Rightarrow> ConfigMap \<Rightarrow> api_error option \<times> 's"

text \<open>
  Every call the controller makes on the client is recorded, in order, with its
  argument. The state a controller function runs on is the state of the cluster
  together with the calls made so far.
\<close>

datatype store_op =
    OpGetNamespace namespaced_name
  | OpGetConfigMap namespaced_name
  | OpCreate ConfigMap
  | OpUpdate ConfigMap
  | OpDelete ConfigMap

type_synonym 's world = "'s \<times> store_op list"

definition call_GetNamespace ::
  "'s Client \<Rightarrow> namespaced_name \<Rightarrow> 's world \<Rightarrow> (api_error + Namespace) \<times> 's world" where
  "call_GetNamespace c key w =
     (case GetNamespace c (fst w) key of
        (res, s') \<Rightarrow> (res, (s', snd w @ [OpGetNamespace key])))"

definition call_GetConfigMap ::
  "'s Client \<Rightarrow> namespaced_name \<Rightarrow> 's world \<Rightarrow> (api_error + ConfigMap) \<times> 's world" where
  "call_GetConfigMap c key w =
     (case GetConfigMap c (fst w) key of
        (res, s') \<Rightarrow> (res, (s', snd w @ [OpGetConfigMap key])))"

definition call_Create ::
  "'s Client \<Rightarrow> ConfigMap \<Rightarrow> 's world \<Rightarrow> api_error option \<times> 's world" where
  "call_Create c obj w =
     (case Create c (fst w) obj of
        (res, s') \<Rightarrow> (res, (s', snd w @ [OpCreate obj])))"

definition call_Update ::
  "'s Client \<Rightarrow> ConfigMap \<Rightarrow> 's world \<Rightarrow> api_error option \<times> 's world" where
  "call_Update c obj w =
     (case Update c (fst w) obj of
        (res, s') \<Rightarrow> (res, (s', snd w @ [OpUpdate obj])))"

text \<open>\<open>ctrl.Request\<close> is a namespaced name; \<open>ctrl.Result\<close> is always empty and left out.\<close>

type_synonym Request = namespaced_name

subsection \<open>First revision: the enforcer holds the desired data\<close>

text \<open>
  \<open>data\<close> is a Go map. It is given as the list of its entries in the order in which
  \<open>range\<close> visits them, which Go leaves unspecified: a property of the code holds for
  every such list whose keys are distinct.
\<close>

record 's enforcer1 =
  e1_client :: "'s Client"
  e1_data :: "(string \<times> string) list"
  e1_configMapName :: string

record 's namespace1 =
  n1_client :: "'s Client"
  n1_enforcer :: "'s enforcer1"

record 's configmap1 =
  c1_client :: "'s Client"
  c1_enforcer :: "'s enforcer1"

text \<open>
  The loop \<open>for k, v := range e.data\<close> of \<open>enforcer.configmap\<close>, on the data of the
  object read and the flag \<open>notMatch\<close>.
\<close>

fun range_data ::
  "(string \<times> string) list \<Rightarrow> (string \<rightharpoonup> string) \<Rightarrow> bool \<Rightarrow> (string \<rightharpoonup> string) \<times> bool" where
  "range_data [] cmData notMatch = (cmData, notMatch)"
| "range_data ((k, v) # rest) cmData notMatch =
     (case cmData k of
        None \<Rightarrow> range_data rest (cmData(k \<mapsto> v)) True
      | Some kv \<Rightarrow>
          if v \<noteq> kv then range_data rest (cmData(k \<mapsto> v)) True
          else range_data rest cmData notMatch)"

definition enforcer1_configmap ::
  "'s enforcer1 \<Rightarrow> string \<Rightarrow> 's world \<Rightarrow> error option \<times> 's world" where
  "enforcer1_configmap e namespace w =
     (let namespacedName = NamespacedName namespace (e1_configMapName e) in
      case call_GetConfigMap (e1_client e) namespacedName w of
        (Inl err, w1) \<Rightarrow>
          if IsNotFound err then
            (case call_Create (e1_client e)
                    \<lparr>cm_Name = e1_configMapName e, cm_Namespace = namespace,
                     Labels = [IstioConfigLabelKey \<mapsto> ''true''],
                     Data = map_of (e1_data e)\<rparr> w1 of
               (res, w2) \<Rightarrow> (map_option ClientError res, w2))
          else (Some (FailedToGet namespacedName err), w1)
      | (Inr cm, w1) \<Rightarrow>
          (case range_data (e1_data e) (Data cm) False of
             (cmData, notMatch1) \<Rightarrow>
               let notMatch =
                     (case Labels cm IstioConfigLabelKey of
                        None \<Rightarrow> True
                      | Some val \<Rightarrow> if val \<noteq> ''true'' then True else notMatch1)
               in if notMatch then
                    (case call_Update (e1_client e)
                            (cm\<lparr>Data := cmData,
                                Labels := (Labels cm)(IstioConfigLabelKey \<mapsto> ''true'')\<rparr>) w1 of
                       (res, w2) \<Rightarrow> (map_option ClientError res, w2))
                  else (None, w1)))"

definition configmap1_Reconcile ::
  "'s configmap1 \<Rightarrow> Request \<Rightarrow> 's world \<Rightarrow> error option \<times> 's world" where
  "configmap1_Reconcile c req w =
     (case call_GetConfigMap (c1_client c) req w of
        (Inl err, w1) \<Rightarrow>
          if \<not> IsNotFound err then (Some (FailedToGet req err), w1)
          else enforcer1_configmap (c1_enforcer c) (nn_Namespace req) w1
      | (Inr cm, w1) \<Rightarrow> enforcer1_configmap (c1_enforcer c) (nn_Namespace req) w1)"

definition namespace1_Reconcile ::
  "'s namespace1 \<Rightarrow> Request \<Rightarrow> 's world \<Rightarrow> error option \<times> 's world" where
  "namespace1_Reconcile n req w =
     (case call_GetNamespace (n1_client n) req w of
        (Inl err, w1) \<Rightarrow>
          if IsNotFound err then (None, w1)
          else (Some (FailedToGet req err), w1)
      | (Inr ns, w1) \<Rightarrow>
          if Phase ns = NamespaceTerminating then (None, w1)
          else enforcer1_configmap (n1_enforcer n) (nn_Name req) w1)"

subsection \<open>Second revision: the enforcer asks a getter for the root CA\<close>

text \<open>
  \<open>caGetter\<close> is \<open>func() []byte\<close>; \<open>fmt.Sprintf("%s", e.rootCA())\<close> is the string of
  the same bytes, and a \<open>string\<close> here is a list of bytes.
\<close>

type_synonym caGetter = "unit \<Rightarrow> string"

record 's enforcer2 =
  e2_client :: "'s Client"
  e2_rootCA :: caGetter
  e2_configMapName :: string

record 's namespace2 =
  n2_client :: "'s Client"
  n2_enforcer :: "'s enforcer2"

record 's configmap2 =
  c2_client :: "'s Client"
  c2_enforcer :: "'s enforcer2"

definition enforcer2_configmap ::
  "'s enforcer2 \<Rightarrow> string \<Rightarrow> 's world \<Rightarrow> error option \<times> 's world" where
  "enforcer2_configmap e namespace w =
     (let namespacedName = NamespacedName namespace (e2_configMapName e);
          rootCA = e2_rootCA e ();
          rootCAConfigData = [(''root-cert.pem'', rootCA)] in
      case call_GetConfigMap (e2_client e) namespacedName w of
        (Inl err, w1) \<Rightarrow>
          if IsNotFound err then
            (case call_Create (e2_client e)
                    \<lparr>cm_Name = e2_configMapName e, cm_Namespace = namespace,
                     Labels = [IstioConfigLabelKey \<mapsto> ''true''],
                     Data = map_of rootCAConfigData\<rparr> w1 of
               (res, w2) \<Rightarrow> (map_option ClientError res, w2))
          else (Some (FailedToGet namespacedName err), w1)
      | (Inr cm, w1) \<Rightarrow>
          (case (case Data cm ''root-cert.pem'' of
                   None \<Rightarrow> ((Data cm)(''root-cert.pem'' \<mapsto> rootCA), True)
                 | Some data \<Rightarrow>
                     if data \<noteq> rootCA then ((Data cm)(''root-cert.pem'' \<mapsto> rootCA), True)
                     else (Data cm, False)) of
             (cmData, notMatch1) \<Rightarrow>
               let notMatch =
                     (case Labels cm IstioConfigLabelKey of
                        None \<Rightarrow> True
                      | Some val \<Rightarrow> if val \<noteq> ''true'' then True else notMatch1)
               in if notMatch then
                    (case call_Update (e2_client e)
                            (cm\<lparr>Data := cmData,
                                Labels := (Labels cm)(IstioConfigLabelKey \<mapsto> ''true'')\<rparr>) w1 of
                       (res, w2) \<Rightarrow> (map_option ClientError res, w2))
                  else (None, w1)))"

definition configmap2_Reconcile ::
  "'s configmap2 \<Rightarrow> Request \<Rightarrow> 's world \<Rightarrow> error option \<times> 's world" where
  "configmap2_Reconcile c req w = enforcer2_configmap (c2_enforcer c) (nn_Namespace req) w"

definition namespace2_Reconcile ::
  "'s namespace2 \<Rightarrow> Request \<Rightarrow> 's world \<Rightarrow> error option \<times> 's world" where
  "namespace2_Reconcile n req w =
     (case call_GetNamespace (n2_client n) req w of
        (Inl err, w1) \<Rightarrow>
          if IsNotFound err then (None, w1)
          else (Some (FailedToGet req err), w1)
      | (Inr ns, w1) \<Rightarrow>
          if Phase ns = NamespaceTerminating then (None, w1)
          else enforcer2_configmap (n2_enforcer n) (nn_Name req) w1)"

subsection \<open>An in-memory cluster behind the client\<close>

text \<open>
  The API server is outside the repository. Properties that speak of what a second call
  finds need a store that keeps what was written: the cluster is the list of its
  namespaces and ConfigMaps, a read finds the object with the given name, \<open>Create\<close>
  refuses an object that exists, \<open>Update\<close> and \<open>Delete\<close> one that does not, and no
  operation fails for any other reason.
\<close>

record cluster =
  cl_namespaces :: "Namespace list"
  cl_configmaps :: "ConfigMap list"

definition key_of :: "ConfigMap \<Rightarrow> namespaced_name" where
  "key_of cm = NamespacedName (cm_Namespace cm) (cm_Name cm)"

definition lookup_configmap :: "cluster \<Rightarrow> namespaced_name \<Rightarrow> ConfigMap option" where
  "lookup_configmap s key = find (\<lambda>cm. key_of cm = key) (cl_configmaps s)"

definition mem_GetNamespace ::
  "cluster \<Rightarrow> namespaced_name \<Rightarrow> (api_error + Namespace) \<times> cluster" where
  "mem_GetNamespace s key =
     (case find (\<lambda>ns. ns_Name ns = nn_Name key) (cl_namespaces s) of
        None \<Rightarrow> (Inl NotFound, s)
      | Some ns \<Rightarrow> (Inr ns, s))"

definition mem_GetConfigMap ::
  "cluster \<Rightarrow> namespaced_name \<Rightarrow> (api_error + ConfigMap) \<times> cluster" where
  "mem_GetConfigMap s key =
     (case lookup_configmap s key of
        None \<Rightarrow> (Inl NotFound, s)
      | Some cm \<Rightarrow> (Inr cm, s))"

definition mem_Create :: "cluster \<Rightarrow> ConfigMap \<Rightarrow> api_error option \<times> cluster" where
  "mem_Create s obj =
     (case lookup_configmap s (key_of obj) of
        Some cm \<Rightarrow> (Some AlreadyExists, s)
      | None \<Rightarrow> (None, s\<lparr>cl_configmaps := cl_configmaps s @ [obj]\<rparr>))"

definition mem_Update :: "cluster \<Rightarrow> ConfigMap \<Rightarrow> api_error option \<times> cluster" where
  "mem_Update s obj =
     (case lookup_configmap s (key_of obj) of
        None \<Rightarrow> (Some NotFound, s)
      | Some cm \<Rightarrow>
          (None, s\<lparr>cl_configmaps :=
                     map (\<lambda>old. if key_of old = key_of obj then obj else old)
                       (cl_configmaps s)\<rparr>))"

definition mem_Delete :: "cluster \<Rightarrow> ConfigMap \<Rightarrow> api_error option \<times> cluster" where
  "mem_Delete s obj =
     (case lookup_configmap s (key_of obj) of
        None \<Rightarrow> (Some NotFound, s)
      | Some cm \<Rightarrow>
          (None, s\<lparr>cl_configmaps :=
                     filter (\<lambda>old. key_of old \<noteq> key_of obj) (cl_configmaps s)\<rparr>))"

definition mem_Client :: "cluster Client" where
  "mem_Client =
     \<lparr>GetNamespace = mem_GetNamespace, GetConfigMap = mem_GetConfigMap,
      Create = mem_Create, Update = mem_Update, Delete = mem_Delete\<rparr>"

subsection \<open>Vocabulary for the properties of the controller\<close>

text \<open>The calls that write to the store, and the calls of a trace that do.\<close>

fun is_write :: "store_op \<Rightarrow> bool" where
  "is_write (OpGetNamespace key) = False"
| "is_write (OpGetConfigMap key) = False"
| "is_write (OpCreate obj) = True"
| "is_write (OpUpdate obj) = True"
| "is_write (OpDelete obj) = True"

definition writes :: "store_op list \<Rightarrow> store_op list" where
  "writes ops = filter is_write ops"

text \<open>A call is a get, a create or an update: anything but a delete.\<close>

fun get_create_update :: "store_op \<Rightarrow> bool" where
  "get_create_update (OpGetNamespace key) = True"
| "get_create_update (OpGetConfigMap key) = True"
| "get_create_update (OpCreate obj) = True"
| "get_create_update (OpUpdate obj) = True"
| "get_create_update (OpDelete obj) = False"

text \<open>
  The object carries the desired entries and the marker label: what \<open>enforcer.configmap\<close>
  tests before it decides to write.
\<close>

definition has_desired :: "(string \<times> string) list \<Rightarrow> ConfigMap \<Rightarrow> bool" where
  "has_desired dat cm =
     (list_all (\<lambda>(k, v). Data cm k = Some v) dat \<and>
      Labels cm IstioConfigLabelKey = Some ''true'')"

definition converged :: "(string \<times> string) list \<Rightarrow> namespaced_name \<Rightarrow> cluster \<Rightarrow> bool" where
  "converged dat key s =
     (case lookup_configmap s key of None \<Rightarrow> False | Some cm \<Rightarrow> has_desired dat cm)"


text \<open>The enforcer of the first revision that holds the one entry the second builds.\<close>

definition as_enforcer1 :: "'s enforcer2 \<Rightarrow> 's enforcer1" where
  "as_enforcer1 e =
     \<lparr>e1_client = e2_client e, e1_data = [(''root-cert.pem'', e2_rootCA e ())],
      e1_configMapName = e2_configMapName e\<rparr>"

text \<open>
  \<open>obj\<close> is \<open>cm\<close> with the desired entries and the marker label merged in: every
  other data key and every other label is as in \<open>cm\<close>, and so is the name.
\<close>

definition merged :: "(string \<times> string) list \<Rightarrow> ConfigMap \<Rightarrow> ConfigMap \<Rightarrow> bool" where
  "merged dat cm obj =
     ((\<forall>k. k \<notin> fst ` set dat \<longrightarrow> Data obj k = Data cm k) \<and>
      (\<forall>(k, v) \<in> set dat. Data obj k = Some v) \<and>
      (\<forall>l. l \<noteq> IstioConfigLabelKey \<longrightarrow> Labels obj l = Labels cm l) \<and>
      Labels obj IstioConfigLabelKey = Some ''true'' \<and>
      cm_Name obj = cm_Name cm \<and> cm_Namespace obj = cm_Namespace cm)"

text \<open>
  Two calls of a convergence function in succession, the second on the state the first
  left. \<open>idempotent_run\<close>: neither call fails; the second writes nothing and leaves
  the state as it found it; the first makes at most one write: after its read it creates
  the object with the desired data and the marker label when the object is absent,
  makes no further call when the object has the desired entries and the label, and
  otherwise updates the object with the entries and the label merged in.
\<close>

definition idempotent_run ::
  "(cluster world \<Rightarrow> error option \<times> cluster world) \<Rightarrow> (string \<times> string) list \<Rightarrow>
   namespaced_name \<Rightarrow> cluster \<Rightarrow> bool" where
  "idempotent_run converge dat key s =
     (case converge (s, []) of
        (err1, s1, ops1) \<Rightarrow>
          (case converge (s1, []) of
             (err2, s2, ops2) \<Rightarrow>
               err1 = None \<and> err2 = None \<and> writes ops2 = [] \<and> s2 = s1 \<and>
               length (writes ops1) \<le> 1 \<and>
               (case lookup_configmap s key of
                  None \<Rightarrow>
                    ops1 = [OpGetConfigMap key,
                            OpCreate \<lparr>cm_Name = nn_Name key, cm_Namespace = nn_Namespace key,
                                      Labels = [IstioConfigLabelKey \<mapsto> ''true''],
                                      Data = map_of dat\<rparr>]
                | Some cm \<Rightarrow>
                    if has_desired dat cm then ops1 = [OpGetConfigMap key]
                    else ops1 = [OpGetConfigMap key,
                                 OpUpdate (cm\<lparr>Data := Data cm ++ map_of dat,
                                              Labels := (Labels cm)
                                                (IstioConfigLabelKey \<mapsto> ''true'')\<rparr>)])))"

text \<open>The writes of the two calls, in order.\<close>

definition writes_of_two_calls ::
  "(cluster world \<Rightarrow> error option \<times> cluster world) \<Rightarrow> cluster \<Rightarrow> store_op list" where
  "writes_of_two_calls converge s =
     (case converge (s, []) of
        (err1, s1, ops1) \<Rightarrow>
          (case converge (s1, []) of
             (err2, s2, ops2) \<Rightarrow> writes ops1 @ writes ops2))"

section \<open>The request authorizer (pkg/server, known through auth_test.go)\<close>

text \<open>
  The tests of \<open>identitiesMatch\<close> and \<open>authRequest\<close> are in the repository; the
  functions themselves are not among its files. They are modelled from the
  specification, sections 4.1 and 4.2; the mock authenticator and the shape of the
  calls are those of the tests.
\<close>

text \<open>A \<open>*url.URL\<close>, known by the string it prints as.\<close>

datatype uri = URI (uri_String: string)

text \<open>
  Modelled from the spec: \<open>identitiesMatch\<close>, which is missing from the sources.
  True iff the two collections, treated as sets (duplicates and order ignored), are
  exactly equal: every entry of one occurs in the other.
\<close>

definition identitiesMatch :: "string list \<Rightarrow> uri list \<Rightarrow> bool" where
  "identitiesMatch a b =
     (list_all (\<lambda>x. x \<in> set (map uri_String b)) a \<and>
      list_all (\<lambda>y. y \<in> set a) (map uri_String b))"

text \<open>\<open>authenticate.Caller\<close>, as the mock authenticator of the tests builds it.\<close>

record Caller =
  Identities :: "string list"

text \<open>
  \<open>Authenticate(ctx)\<close> returns a caller or an error (its message). The server of the
  tests has a logger and the authenticator.
\<close>

record 'ctx Server =
  auther :: "'ctx \<Rightarrow> string + Caller"

text \<open>The fields of a decoded certificate-signing request that the authorizer reads.\<close>

record CertificateRequest =
  Subject_CommonName :: string
  DNSNames :: "string list"
  IPAddresses :: "string list"
  EmailAddresses :: "string list"
  URIs :: "uri list"

text \<open>Decoding is a library's work: a parameter, \<open>None\<close> when the payload does not decode.\<close>

type_synonym decoder = "string \<Rightarrow> CertificateRequest option"

text \<open>\<open>strings.Join\<close>.\<close>

fun strings_Join :: "string list \<Rightarrow> string \<Rightarrow> string" where
  "strings_Join [] sep = []"
| "strings_Join [x] sep = x"
| "strings_Join (x # y # ys) sep = x @ sep @ strings_Join (y # ys) sep"

text \<open>What the authorizer has called, in order.\<close>

datatype auth_step = CallAuthenticate | CallDecode

text \<open>
  Modelled from the spec: \<open>authRequest\<close>, which is missing from the sources, by the six
  steps of section 4.2. It returns the identity string and whether the request is
  authorized, with the calls it made.
\<close>

definition authRequest ::
  "'ctx Server \<Rightarrow> decoder \<Rightarrow> 'ctx \<Rightarrow> string \<Rightarrow> (string \<times> bool) \<times> auth_step list" where
  "authRequest s decode ctx payload =
     (case auther s ctx of
        Inl err \<Rightarrow> (([], False), [CallAuthenticate])
      | Inr caller \<Rightarrow>
          if Identities caller = [] then (([], False), [CallAuthenticate])
          else
            let identities = strings_Join (Identities caller) '','' in
            (case decode payload of
               None \<Rightarrow> ((identities, False), [CallAuthenticate, CallDecode])
             | Some csr \<Rightarrow>
                 if DNSNames csr \<noteq> [] \<or> IPAddresses csr \<noteq> [] \<or>
                    EmailAddresses csr \<noteq> [] \<or> Subject_CommonName csr \<noteq> []
                 then ((identities, False), [CallAuthenticate, CallDecode])
                 else if \<not> identitiesMatch (Identities caller) (URIs csr)
                 then ((identities, False), [CallAuthenticate, CallDecode])
                 else ((identities, True), [CallAuthenticate, CallDecode])))"

section \<open>The issuance orchestrator (configured by cmd/app/options/options.go)\<close>

text \<open>
  \<open>CertManagerOptions\<close> of options.go. A \<open>time.Duration\<close> is a number of nanoseconds;
  no arithmetic is done on it here, only a comparison.
\<close>

record ObjectReference =
  ref_Name :: string
  ref_Kind :: string
  ref_Group :: string

record CertManagerOptions =
  MaximumClientCertificateDuration :: int
  opt_Namespace :: string
  PreserveCRs :: bool
  IssuerRef :: ObjectReference

text \<open>The external signing request the orchestrator builds (section 3 of the spec).\<close>

record SigningRequest =
  sr_Namespace :: string
  sr_Request :: string
  sr_IssuerRef :: ObjectReference
  sr_Duration :: int
  sr_Identities :: string

text \<open>
  The external control plane, as the orchestrator sees it: a created request becomes
  ready with a certificate chain and a CA certificate, reaches a terminal failure, or
  is not ready when the timeout elapses.
\<close>

datatype wait_outcome = Ready string string | TerminalFailure | TimedOut

type_synonym control_plane = "SigningRequest \<Rightarrow> wait_outcome"

datatype issue_error = AuthorizationError | IssuanceError

datatype request_op = CreateRequest SigningRequest | DeleteRequest SigningRequest

text \<open>
  Modelled from the spec: the issuance call, which is missing from the sources, by the
  six steps of section 4.3. It returns the certificate chain and the CA certificate, or
  an error, with the calls made on the store of signing requests.
\<close>

definition issue ::
  "CertManagerOptions \<Rightarrow> 'ctx Server \<Rightarrow> decoder \<Rightarrow> control_plane \<Rightarrow>
   'ctx \<Rightarrow> string \<Rightarrow> int \<Rightarrow> (issue_error + string \<times> string) \<times> request_op list" where
  "issue opts s decode plane ctx payload requestedDuration =
     (case fst (authRequest s decode ctx payload) of
        (identities, False) \<Rightarrow> (Inl AuthorizationError, [])
      | (identities, True) \<Rightarrow>
          let duration =
                (if requestedDuration > MaximumClientCertificateDuration opts
                 then MaximumClientCertificateDuration opts else requestedDuration);
              cr = \<lparr>sr_Namespace = opt_Namespace opts, sr_Request = payload,
                    sr_IssuerRef = IssuerRef opts, sr_Duration = duration,
                    sr_Identities = identities\<rparr>;
              cleanup = (if PreserveCRs opts then [] else [DeleteRequest cr])
          in (case plane cr of
                Ready chain ca \<Rightarrow> (Inr (chain, ca), CreateRequest cr # cleanup)
              | TerminalFailure \<Rightarrow> (Inl IssuanceError, CreateRequest cr # cleanup)
              | TimedOut \<Rightarrow> (Inl IssuanceError, CreateRequest cr # cleanup)))"

section \<open>Example inputs\<close>

text \<open>
  The options with their default values from options.go (the maximum duration is 24
  hours), the mock authenticator of the tests proving one identity, a decoder that
  yields a request claiming that identity, and a control plane that signs any request
  of at most 24 hours.
\<close>

definition ex_opts :: CertManagerOptions where
  "ex_opts =
     \<lparr>MaximumClientCertificateDuration = 86400000000000, opt_Namespace = ''istio-system'',
      PreserveCRs = False,
      IssuerRef = \<lparr>ref_Name = ''istio-ca'', ref_Kind = ''Issuer'',
                    ref_Group = ''cert-manager.io''\<rparr>\<rparr>"

definition ex_server :: "unit Server" where
  "ex_server = \<lparr>auther = \<lambda>ctx. Inr \<lparr>Identities = [''spiffe://foo'']\<rparr>\<rparr>"

definition ex_decode :: decoder where
  "ex_decode =
     (\<lambda>p. Some \<lparr>Subject_CommonName = [], DNSNames = [], IPAddresses = [],
                 EmailAddresses = [], URIs = [URI ''spiffe://foo'']\<rparr>)"

definition ex_plane :: control_plane where
  "ex_plane =
     (\<lambda>cr. if sr_Duration cr \<le> 86400000000000 then Ready ''chain'' ''ca''
           else TerminalFailure)"

text \<open>
  The mock authenticator proving the two identities of the tests, and a decoder that
  fails on the bad payload of the tests and otherwise yields a request claiming both.
\<close>

definition ex_two :: "unit Server" where
  "ex_two = \<lparr>auther = \<lambda>ctx. Inr \<lparr>Identities = [''spiffe://foo'', ''spiffe://bar'']\<rparr>\<rparr>"

definition ex_decode_two :: decoder where
  "ex_decode_two =
     (\<lambda>p. if p = ''bad csr'' then None
           else Some \<lparr>Subject_CommonName = [], DNSNames = [], IPAddresses = [],
                      EmailAddresses = [],
                      URIs = [URI ''spiffe://foo'', URI ''spiffe://bar'']\<rparr>)"

text \<open>
  Clusters with an active and a terminating namespace: one without the ConfigMap, one
  where it is as desired, one where it lacks the entry and the label and has a key of
  its own. The enforcers of both revisions for the root CA \<open>PEM\<close> on the in-memory
  client, and a client whose every call fails.
\<close>

definition ex_namespaces :: "Namespace list" where
  "ex_namespaces =
     [\<lparr>ns_Name = ''default'', Phase = ''Active''\<rparr>,
      \<lparr>ns_Name = ''old'', Phase = ''Terminating''\<rparr>]"

definition ex_empty :: cluster where
  "ex_empty = \<lparr>cl_namespaces = ex_namespaces, cl_configmaps = []\<rparr>"

definition ex_converged :: cluster where
  "ex_converged =
     \<lparr>cl_namespaces = ex_namespaces,
      cl_configmaps =
        [\<lparr>cm_Name = ''istio-ca-root-cert'', cm_Namespace = ''default'',
          Labels = [''istio.io/config'' \<mapsto> ''true''],
          Data = [''root-cert.pem'' \<mapsto> ''PEM'']\<rparr>]\<rparr>"

definition ex_drifted_cm :: ConfigMap where
  "ex_drifted_cm =
     \<lparr>cm_Name = ''istio-ca-root-cert'', cm_Namespace = ''default'',
      Labels = Map.empty, Data = [''other'' \<mapsto> ''x'']\<rparr>"

definition ex_drifted :: cluster where
  "ex_drifted = \<lparr>cl_namespaces = ex_namespaces, cl_configmaps = [ex_drifted_cm]\<rparr>"

definition ex_rootCA :: caGetter where
  "ex_rootCA = (\<lambda>u. ''PEM'')"

definition ex_enforcer1 :: "cluster enforcer1" where
  "ex_enforcer1 =
     \<lparr>e1_client = mem_Client, e1_data = [(''root-cert.pem'', ''PEM'')],
      e1_configMapName = ''istio-ca-root-cert''\<rparr>"

definition ex_enforcer2 :: "cluster enforcer2" where
  "ex_enforcer2 =
     \<lparr>e2_client = mem_Client, e2_rootCA = ex_rootCA,
      e2_configMapName = ''istio-ca-root-cert''\<rparr>"

definition failing_Client :: "cluster Client" where
  "failing_Client =
     \<lparr>GetNamespace = (\<lambda>s key. (Inl (ServerError ''timeout''), s)),
      GetConfigMap = (\<lambda>s key. (Inl (ServerError ''timeout''), s)),
      Create = (\<lambda>s obj. (Some (ServerError ''timeout''), s)),
      Update = (\<lambda>s obj. (Some (ServerError ''timeout''), s)),
      Delete = (\<lambda>s obj. (Some (ServerError ''timeout''), s))\<rparr>"

section \<open>Properties\<close>

text \<open>The definitions unfolded to evaluate the examples.\<close>

lemmas ex_defs = ex_namespaces_def ex_empty_def ex_converged_def ex_drifted_cm_def ex_drifted_def
  ex_rootCA_def ex_enforcer1_def ex_enforcer2_def

lemmas mem_defs = mem_Client_def mem_GetNamespace_def mem_GetConfigMap_def mem_Create_def
  mem_Update_def lookup_configmap_def key_of_def

lemmas call_defs = call_GetNamespace_def call_GetConfigMap_def call_Create_def call_Update_def


subsection \<open>The identity matcher\<close>

lemma identitiesMatch_iff_set: "identitiesMatch a b \<longleftrightarrow> set a = uri_String ` set b"
  by (auto simp add: identitiesMatch_def list_all_iff)

text \<open>
  Claim C2. \<open>identitiesMatch A B\<close> is true iff the strings of \<open>A\<close> and the strings of
  the URIs of \<open>B\<close> are the same set. Hence it is symmetric (the strings of \<open>B\<close> against
  the URIs of \<open>A\<close> give the same answer); it depends on the set of entries of each
  input only, so permuting or duplicating entries changes nothing; two empty inputs
  match; a strict subset or superset on either side does not; and inputs that match
  have the same number of distinct entries.
\<close>

theorem identitiesMatch_set_equality:
  "(identitiesMatch A B \<longleftrightarrow> set A = uri_String ` set B)
   \<and> (identitiesMatch A B \<longleftrightarrow> identitiesMatch (map uri_String B) (map URI A))
   \<and> (set A' = set A \<and> set B' = set B \<longrightarrow> identitiesMatch A' B' = identitiesMatch A B)
   \<and> identitiesMatch [] []
   \<and> (set A \<subset> uri_String ` set B \<or> uri_String ` set B \<subset> set A \<longrightarrow> \<not> identitiesMatch A B)
   \<and> (identitiesMatch A B \<longrightarrow> card (set A) = card (set B))"
proof (intro conjI)
  show "identitiesMatch A B \<longleftrightarrow> set A = uri_String ` set B"
    by (rule identitiesMatch_iff_set)
  have "uri_String ` URI ` set A = set A"
    by (simp add: image_image)
  then show "identitiesMatch A B \<longleftrightarrow> identitiesMatch (map uri_String B) (map URI A)"
    by (simp add: identitiesMatch_iff_set eq_commute)
  show "set A' = set A \<and> set B' = set B \<longrightarrow> identitiesMatch A' B' = identitiesMatch A B"
    by (simp add: identitiesMatch_iff_set)
  show "identitiesMatch [] []"
    by (simp add: identitiesMatch_def)
  show "set A \<subset> uri_String ` set B \<or> uri_String ` set B \<subset> set A \<longrightarrow> \<not> identitiesMatch A B"
    by (auto simp add: identitiesMatch_iff_set)
  have "inj_on uri_String (set B)"
    by (rule inj_onI) (simp add: uri.expand)
  then show "identitiesMatch A B \<longrightarrow> card (set A) = card (set B)"
    by (simp add: identitiesMatch_iff_set card_image)
qed

text \<open>
  The theorem at a reordered input with a duplicate, at a matching pair, and at a
  strict subset.
\<close>

theorem identitiesMatch_set_equality_witness:
  "(set [''b'', ''a'', ''a''] = set [''a'', ''b''] \<and>
    set [URI ''a'', URI ''b''] = set [URI ''b'', URI ''a''])
   \<and> identitiesMatch [''b'', ''a'', ''a''] [URI ''a'', URI ''b''] =
       identitiesMatch [''a'', ''b''] [URI ''b'', URI ''a'']
   \<and> identitiesMatch [''a'', ''b''] [URI ''b'', URI ''a'']
   \<and> card (set [''a'', ''b'']) = card (set [URI ''b'', URI ''a''])
   \<and> (set [''a''] \<subset> uri_String ` set [URI ''a'', URI ''b''] \<or>
       uri_String ` set [URI ''a'', URI ''b''] \<subset> set [''a''])
   \<and> \<not> identitiesMatch [''a''] [URI ''a'', URI ''b'']"
proof -
  note main = identitiesMatch_set_equality
      [of "[''a'', ''b'']" "[URI ''b'', URI ''a'']" "[''b'', ''a'', ''a'']" "[URI ''a'', URI ''b'']"]
  note sub = identitiesMatch_set_equality
      [of "[''a'']" "[URI ''a'', URI ''b'']" "[]" "[]"]
  have m: "identitiesMatch [''a'', ''b''] [URI ''b'', URI ''a'']"
    by (simp add: identitiesMatch_def)
  have s: "set [''b'', ''a'', ''a''] = set [''a'', ''b''] \<and>
           set [URI ''a'', URI ''b''] = set [URI ''b'', URI ''a'']"
    by auto
  have p: "set [''a''] \<subset> uri_String ` set [URI ''a'', URI ''b''] \<or>
           uri_String ` set [URI ''a'', URI ''b''] \<subset> set [''a'']"
    by auto
  have 1: "identitiesMatch [''b'', ''a'', ''a''] [URI ''a'', URI ''b''] =
      identitiesMatch [''a'', ''b''] [URI ''b'', URI ''a'']"
    by (rule main [THEN conjunct2, THEN conjunct2, THEN conjunct1, THEN mp, OF s])
  have 2: "card (set [''a'', ''b'']) = card (set [URI ''b'', URI ''a''])"
    by (rule main [THEN conjunct2, THEN conjunct2, THEN conjunct2, THEN conjunct2,
                   THEN conjunct2, THEN mp, OF m])
  have 3: "\<not> identitiesMatch [''a''] [URI ''a'', URI ''b'']"
    by (rule sub [THEN conjunct2, THEN conjunct2, THEN conjunct2, THEN conjunct2,
                  THEN conjunct1, THEN mp, OF p])
  show ?thesis
    by (rule conjI [OF s conjI [OF 1 conjI [OF m conjI [OF 2 conjI [OF p 3]]]]])
qed


subsection \<open>The request authorizer\<close>

text \<open>
  Claim C1. When the payload decodes to a request with a DNS name, an IP address, an
  email address or a subject common name, \<open>authRequest\<close> answers \<open>ok = false\<close>,
  whatever the authenticator proves and whatever URI identities the request claims.
\<close>

theorem authRequest_rejects_extra_fields:
  assumes "decode payload = Some csr"
    and "DNSNames csr \<noteq> [] \<or> IPAddresses csr \<noteq> [] \<or> EmailAddresses csr \<noteq> [] \<or>
         Subject_CommonName csr \<noteq> []"
  shows "snd (fst (authRequest s decode ctx payload)) = False"
  using assms by (simp add: authRequest_def split: sum.splits)

text \<open>
  The theorem at the request of the tests: the claimed URIs equal the proven identities,
  and the request names two DNS names.
\<close>

theorem authRequest_rejects_extra_fields_witness:
  "(\<lambda>p. Some \<lparr>Subject_CommonName = [], DNSNames = [''example.com'', ''jetstack.io''],
               IPAddresses = [], EmailAddresses = [],
               URIs = [URI ''spiffe://foo'', URI ''spiffe://bar'']\<rparr>) ''csr'' =
     Some \<lparr>Subject_CommonName = [], DNSNames = [''example.com'', ''jetstack.io''],
           IPAddresses = [], EmailAddresses = [],
           URIs = [URI ''spiffe://foo'', URI ''spiffe://bar'']\<rparr>
   \<and> identitiesMatch [''spiffe://foo'', ''spiffe://bar''] [URI ''spiffe://foo'', URI ''spiffe://bar'']
   \<and> snd (fst (authRequest
         \<lparr>auther = \<lambda>ctx. Inr \<lparr>Identities = [''spiffe://foo'', ''spiffe://bar'']\<rparr>\<rparr>
         (\<lambda>p. Some \<lparr>Subject_CommonName = [], DNSNames = [''example.com'', ''jetstack.io''],
                     IPAddresses = [], EmailAddresses = [],
                     URIs = [URI ''spiffe://foo'', URI ''spiffe://bar'']\<rparr>)
         () ''csr'')) = False"
proof -
  have m: "identitiesMatch [''spiffe://foo'', ''spiffe://bar''] [URI ''spiffe://foo'', URI ''spiffe://bar'']"
    by (simp add: identitiesMatch_def)
  show ?thesis
    using m authRequest_rejects_extra_fields
      [of "\<lambda>p. Some \<lparr>Subject_CommonName = [], DNSNames = [''example.com'', ''jetstack.io''],
                     IPAddresses = [], EmailAddresses = [],
                     URIs = [URI ''spiffe://foo'', URI ''spiffe://bar'']\<rparr>"
          "''csr''"
          "\<lparr>Subject_CommonName = [], DNSNames = [''example.com'', ''jetstack.io''],
            IPAddresses = [], EmailAddresses = [],
            URIs = [URI ''spiffe://foo'', URI ''spiffe://bar'']\<rparr>"
          "\<lparr>auther = \<lambda>ctx. Inr \<lparr>Identities = [''spiffe://foo'', ''spiffe://bar'']\<rparr>\<rparr>" "()"]
    by simp
qed

text \<open>
  Claim C3. When the authenticator fails, or proves no identity, \<open>authRequest\<close> returns
  the empty string and \<open>false\<close>, and the authenticator is the only thing it called: the
  decoder is not. Both cases give the same result, for every decoder and payload.
\<close>

theorem authRequest_unauthenticated:
  assumes "auther s ctx = Inl err \<or> (auther s ctx = Inr caller \<and> Identities caller = [])"
  shows "authRequest s decode ctx payload = (([], False), [CallAuthenticate])"
  using assms by (auto simp add: authRequest_def)

theorem authRequest_unauthenticated_witness:
  "authRequest \<lparr>auther = \<lambda>ctx. Inl ''an error''\<rparr> (\<lambda>p. None) () ''bad csr'' =
     (([], False), [CallAuthenticate])
   \<and> authRequest \<lparr>auther = \<lambda>ctx. Inr \<lparr>Identities = []\<rparr>\<rparr> (\<lambda>p. None) () ''bad csr'' =
     (([], False), [CallAuthenticate])"
  using authRequest_unauthenticated
          [of "\<lparr>auther = \<lambda>ctx. Inl ''an error''\<rparr>" "()" "''an error''" _ "\<lambda>p. None" "''bad csr''"]
        authRequest_unauthenticated
          [of "\<lparr>auther = \<lambda>ctx. Inr \<lparr>Identities = []\<rparr>\<rparr>" "()" _ "\<lparr>Identities = []\<rparr>"
              "\<lambda>p. None" "''bad csr''"]
  by simp

text \<open>
  Claim C4. When the authenticator proves at least one identity, the first result of
  \<open>authRequest\<close> is the proven identities joined by commas, in the order given,
  whether the request is authorized or not; and it is authorized exactly when the
  payload decodes to a request without DNS names, IP addresses, email addresses and
  common name whose URIs match the proven identities. So a payload that does not decode,
  a disallowed field and a mismatch all return the string with \<open>false\<close>.
\<close>

theorem authRequest_identity_string:
  assumes "auther s ctx = Inr caller" and "Identities caller \<noteq> []"
  shows "fst (fst (authRequest s decode ctx payload)) = strings_Join (Identities caller) '',''
         \<and> (snd (fst (authRequest s decode ctx payload)) \<longleftrightarrow>
              (\<exists>csr. decode payload = Some csr \<and>
                     DNSNames csr = [] \<and> IPAddresses csr = [] \<and> EmailAddresses csr = [] \<and>
                     Subject_CommonName csr = [] \<and>
                     identitiesMatch (Identities caller) (URIs csr)))"
  using assms by (auto simp add: authRequest_def Let_def split: option.splits)

text \<open>
  The theorem at the authenticator of the tests, with a payload that does not decode and
  with one whose request claims the two proven identities.
\<close>

theorem authRequest_identity_string_witness:
  "auther ex_two () = Inr \<lparr>Identities = [''spiffe://foo'', ''spiffe://bar'']\<rparr>
   \<and> Identities \<lparr>Identities = [''spiffe://foo'', ''spiffe://bar'']\<rparr> \<noteq> []
   \<and> fst (fst (authRequest ex_two ex_decode_two () ''bad csr'')) = ''spiffe://foo,spiffe://bar''
   \<and> snd (fst (authRequest ex_two ex_decode_two () ''bad csr'')) = False
   \<and> fst (fst (authRequest ex_two ex_decode_two () ''csr'')) = ''spiffe://foo,spiffe://bar''
   \<and> snd (fst (authRequest ex_two ex_decode_two () ''csr'')) = True"
proof -
  have a: "auther ex_two () = Inr \<lparr>Identities = [''spiffe://foo'', ''spiffe://bar'']\<rparr>"
    by (simp add: ex_two_def)
  have n: "Identities \<lparr>Identities = [''spiffe://foo'', ''spiffe://bar'']\<rparr> \<noteq> []"
    by simp
  have bad: "ex_decode_two ''bad csr'' = None"
    by (simp add: ex_decode_two_def)
  have good: "ex_decode_two ''csr'' =
      Some \<lparr>Subject_CommonName = [], DNSNames = [], IPAddresses = [], EmailAddresses = [],
            URIs = [URI ''spiffe://foo'', URI ''spiffe://bar'']\<rparr>"
    by (simp add: ex_decode_two_def)
  have m: "identitiesMatch [''spiffe://foo'', ''spiffe://bar'']
             [URI ''spiffe://foo'', URI ''spiffe://bar'']"
    by (simp add: identitiesMatch_def)
  have j: "strings_Join [''spiffe://foo'', ''spiffe://bar''] '','' = ''spiffe://foo,spiffe://bar''"
    by simp
  have 1: "fst (fst (authRequest ex_two ex_decode_two () ''bad csr'')) = ''spiffe://foo,spiffe://bar''"
    using authRequest_identity_string [OF a n, of ex_decode_two "''bad csr''", THEN conjunct1] j
    by simp
  have 2: "snd (fst (authRequest ex_two ex_decode_two () ''bad csr'')) = False"
    using authRequest_identity_string [OF a n, of ex_decode_two "''bad csr''", THEN conjunct2] bad
    by simp
  have 3: "fst (fst (authRequest ex_two ex_decode_two () ''csr'')) = ''spiffe://foo,spiffe://bar''"
    using authRequest_identity_string [OF a n, of ex_decode_two "''csr''", THEN conjunct1] j
    by simp
  have 4: "snd (fst (authRequest ex_two ex_decode_two () ''csr'')) = True"
    using authRequest_identity_string [OF a n, of ex_decode_two "''csr''", THEN conjunct2] good m
    by simp
  show ?thesis
    by (rule conjI [OF a conjI [OF n conjI [OF 1 conjI [OF 2 conjI [OF 3 4]]]]])
qed

subsection \<open>The issuance orchestrator\<close>

lemma ex_auth:
  "authRequest ex_server ex_decode () ''csr'' =
     ((''spiffe://foo'', True), [CallAuthenticate, CallDecode])"
  by (simp add: authRequest_def ex_server_def ex_decode_def identitiesMatch_def)

text \<open>
  Claim C8. A requested duration above the configured maximum is treated as the maximum:
  the call returns what it returns for the maximum itself, every signing request it
  creates carries the maximum, and when the request is authorized and the control plane
  signs the request of maximal duration, the call succeeds.
\<close>

theorem issue_clamps_duration:
  assumes "MaximumClientCertificateDuration opts < d"
  shows "issue opts s decode plane ctx payload d =
           issue opts s decode plane ctx payload (MaximumClientCertificateDuration opts)
         \<and> (\<forall>cr. CreateRequest cr \<in> set (snd (issue opts s decode plane ctx payload d)) \<longrightarrow>
               sr_Duration cr = MaximumClientCertificateDuration opts)
         \<and> (authRequest s decode ctx payload = ((identities, True), steps) \<and>
            plane \<lparr>sr_Namespace = opt_Namespace opts, sr_Request = payload,
                   sr_IssuerRef = IssuerRef opts,
                   sr_Duration = MaximumClientCertificateDuration opts,
                   sr_Identities = identities\<rparr> = Ready chain ca \<longrightarrow>
            fst (issue opts s decode plane ctx payload d) = Inr (chain, ca))"
proof (intro conjI)
  show "issue opts s decode plane ctx payload d =
        issue opts s decode plane ctx payload (MaximumClientCertificateDuration opts)"
    using assms by (simp add: issue_def)
  show "\<forall>cr. CreateRequest cr \<in> set (snd (issue opts s decode plane ctx payload d)) \<longrightarrow>
          sr_Duration cr = MaximumClientCertificateDuration opts"
    using assms
    by (auto simp add: issue_def Let_def split: prod.splits bool.splits wait_outcome.splits)
  show "authRequest s decode ctx payload = ((identities, True), steps) \<and>
        plane \<lparr>sr_Namespace = opt_Namespace opts, sr_Request = payload,
               sr_IssuerRef = IssuerRef opts,
               sr_Duration = MaximumClientCertificateDuration opts,
               sr_Identities = identities\<rparr> = Ready chain ca \<longrightarrow>
        fst (issue opts s decode plane ctx payload d) = Inr (chain, ca)"
    using assms by (simp add: issue_def Let_def)
qed

text \<open>The theorem at a request for 48 hours against the maximum of 24.\<close>

theorem issue_clamps_duration_witness:
  "MaximumClientCertificateDuration ex_opts < 172800000000000
   \<and> fst (issue ex_opts ex_server ex_decode ex_plane () ''csr'' 172800000000000) =
       Inr (''chain'', ''ca'')
   \<and> snd (issue ex_opts ex_server ex_decode ex_plane () ''csr'' 172800000000000) =
       snd (issue ex_opts ex_server ex_decode ex_plane () ''csr'' 86400000000000)"
proof -
  have lt: "MaximumClientCertificateDuration ex_opts < 172800000000000"
    by (simp add: ex_opts_def)
  have mx: "MaximumClientCertificateDuration ex_opts = 86400000000000"
    by (simp add: ex_opts_def)
  have rdy: "ex_plane \<lparr>sr_Namespace = opt_Namespace ex_opts, sr_Request = ''csr'',
                   sr_IssuerRef = IssuerRef ex_opts,
                   sr_Duration = MaximumClientCertificateDuration ex_opts,
                   sr_Identities = ''spiffe://foo''\<rparr> = Ready ''chain'' ''ca''"
    by (simp add: ex_plane_def ex_opts_def)
  note main = issue_clamps_duration [OF lt, of ex_server ex_decode ex_plane "()" "''csr''"
      "''spiffe://foo''" "[CallAuthenticate, CallDecode]" "''chain''" "''ca''"]
  have 1: "fst (issue ex_opts ex_server ex_decode ex_plane () ''csr'' 172800000000000) =
             Inr (''chain'', ''ca'')"
    by (rule main [THEN conjunct2, THEN conjunct2, THEN mp, OF conjI [OF ex_auth rdy]])
  have 2: "snd (issue ex_opts ex_server ex_decode ex_plane () ''csr'' 172800000000000) =
       snd (issue ex_opts ex_server ex_decode ex_plane () ''csr'' 86400000000000)"
    using main [THEN conjunct1] mx by simp
  show ?thesis by (rule conjI [OF lt conjI [OF 1 2]])
qed

subsection \<open>The enforcer, case by case\<close>

lemma range_data_other:
  "k \<notin> fst ` set dat \<Longrightarrow> fst (range_data dat d nm) k = d k"
  by (induction dat d nm rule: range_data.induct) (auto split: option.splits)

lemma range_data_distinct:
  "distinct (map fst dat) \<Longrightarrow>
   range_data dat d nm = (d ++ map_of dat, nm \<or> \<not> list_all (\<lambda>(k, v). d k = Some v) dat)"
proof (induction dat d nm rule: range_data.induct)
  case (1 cmData notMatch)
  show ?case by simp
next
  case (2 k v rest cmData notMatch)
  from "2.prems" have k: "k \<notin> fst ` set rest" and d: "distinct (map fst rest)"
    by simp_all
  from k have nk: "map_of rest k = None"
    by (simp add: map_of_eq_None_iff)
  have upd: "cmData ++ map_of ((k, v) # rest) = cmData(k \<mapsto> v) ++ map_of rest"
    using nk by (auto simp add: map_add_def fun_eq_iff split: option.splits)
  show ?case
  proof (cases "cmData k = Some v")
    case True
    have step: "range_data ((k, v) # rest) cmData notMatch = range_data rest cmData notMatch"
      using True by simp
    have same: "cmData(k \<mapsto> v) = cmData"
      using True by (auto simp add: fun_eq_iff)
    have all: "list_all (\<lambda>(k, v). cmData k = Some v) ((k, v) # rest) =
               list_all (\<lambda>(k, v). cmData k = Some v) rest"
      using True by simp
    show ?thesis
      unfolding step upd same all using "2.IH"(3) [of v, OF True _ d] by simp
  next
    case False
    have step: "range_data ((k, v) # rest) cmData notMatch = range_data rest (cmData(k \<mapsto> v)) True"
      using False by (cases "cmData k") auto
    have all: "\<not> list_all (\<lambda>(k, v). cmData k = Some v) ((k, v) # rest)"
      using False by simp
    have ih: "range_data rest (cmData(k \<mapsto> v)) True =
                (cmData(k \<mapsto> v) ++ map_of rest,
                 True \<or> \<not> list_all (\<lambda>(ka, va). (cmData(k \<mapsto> v)) ka = Some va) rest)"
    proof (cases "cmData k")
      case None
      then show ?thesis by (rule "2.IH"(1) [OF _ d])
    next
      case (Some kv)
      with False have "v \<noteq> kv" by auto
      with Some show ?thesis by (rule "2.IH"(2) [OF _ _ d])
    qed
    show ?thesis
      unfolding step upd using ih all by simp
  qed
qed

lemma enforcer1_get_error:
  assumes "GetConfigMap (e1_client e) s (NamespacedName ns (e1_configMapName e)) = (Inl err, s1)"
    and "\<not> IsNotFound err"
  shows "enforcer1_configmap e ns (s, tr) =
           (Some (FailedToGet (NamespacedName ns (e1_configMapName e)) err), s1,
            tr @ [OpGetConfigMap (NamespacedName ns (e1_configMapName e))])"
  using assms by (simp add: enforcer1_configmap_def call_GetConfigMap_def Let_def)

lemma enforcer1_get_notfound:
  assumes "GetConfigMap (e1_client e) s (NamespacedName ns (e1_configMapName e)) = (Inl err, s1)"
    and "IsNotFound err"
    and "obj = \<lparr>cm_Name = e1_configMapName e, cm_Namespace = ns,
                 Labels = [IstioConfigLabelKey \<mapsto> ''true''], Data = map_of (e1_data e)\<rparr>"
    and "Create (e1_client e) s1 obj = (res, s2)"
  shows "enforcer1_configmap e ns (s, tr) =
           (map_option ClientError res, s2,
            tr @ [OpGetConfigMap (NamespacedName ns (e1_configMapName e)), OpCreate obj])"
  using assms by (simp add: enforcer1_configmap_def call_GetConfigMap_def call_Create_def Let_def)

lemma enforcer1_get_found:
  assumes "GetConfigMap (e1_client e) s (NamespacedName ns (e1_configMapName e)) = (Inr cm, s1)"
    and "obj = cm\<lparr>Data := fst (range_data (e1_data e) (Data cm) False),
                   Labels := (Labels cm)(IstioConfigLabelKey \<mapsto> ''true'')\<rparr>"
  shows "enforcer1_configmap e ns (s, tr) =
           (if snd (range_data (e1_data e) (Data cm) False) \<or>
               Labels cm IstioConfigLabelKey \<noteq> Some ''true''
            then (map_option ClientError (fst (Update (e1_client e) s1 obj)),
                  snd (Update (e1_client e) s1 obj),
                  tr @ [OpGetConfigMap (NamespacedName ns (e1_configMapName e)), OpUpdate obj])
            else (None, s1, tr @ [OpGetConfigMap (NamespacedName ns (e1_configMapName e))]))"
  using assms
  by (cases "range_data (e1_data e) (Data cm) False")
     (auto simp add: enforcer1_configmap_def call_GetConfigMap_def call_Update_def Let_def
           split: option.splits prod.splits)


lemma enforcer2_as_enforcer1:
  "enforcer2_configmap e ns w = enforcer1_configmap (as_enforcer1 e) ns w"
proof -
  obtain res w1 where get:
    "call_GetConfigMap (e2_client e) (NamespacedName ns (e2_configMapName e)) w = (res, w1)"
    by (cases "call_GetConfigMap (e2_client e) (NamespacedName ns (e2_configMapName e)) w") auto
  show ?thesis
  proof (cases res)
    case (Inl err)
    with get show ?thesis
      by (simp add: enforcer2_configmap_def enforcer1_configmap_def as_enforcer1_def Let_def)
  next
    case (Inr cm)
    with get show ?thesis
      by (cases "Data cm ''root-cert.pem''")
         (simp_all add: enforcer2_configmap_def enforcer1_configmap_def as_enforcer1_def Let_def)
  qed
qed

subsection \<open>The two revisions agree\<close>

text \<open>
  Claim C10. On every state of the cluster, every trace of earlier calls and every
  namespace, the enforcer of the first revision holding the single entry
  \<open>root-cert.pem\<close> with the bytes of the root CA, and the enforcer of the second
  revision whose getter returns those bytes, return the same error, leave the same
  state and make the same calls on the client with the same objects.
\<close>

theorem revisions_agree:
  "enforcer1_configmap
     \<lparr>e1_client = c, e1_data = [(''root-cert.pem'', rootCA ())], e1_configMapName = name\<rparr>
     namespace (s, ops) =
   enforcer2_configmap
     \<lparr>e2_client = c, e2_rootCA = rootCA, e2_configMapName = name\<rparr> namespace (s, ops)"
  by (simp add: enforcer2_as_enforcer1 as_enforcer1_def)

subsection \<open>No delete\<close>

lemma enforcer1_ops:
  assumes "list_all get_create_update tr"
  shows "list_all get_create_update (snd (snd (enforcer1_configmap e ns (s, tr))))"
proof -
  obtain res s1 where get:
    "GetConfigMap (e1_client e) s (NamespacedName ns (e1_configMapName e)) = (res, s1)"
    by (cases "GetConfigMap (e1_client e) s (NamespacedName ns (e1_configMapName e))") auto
  show ?thesis
  proof (cases res)
    case (Inl err)
    show ?thesis
    proof (cases "IsNotFound err")
      case True
      obtain r s2 where cr: "Create (e1_client e) s1
            \<lparr>cm_Name = e1_configMapName e, cm_Namespace = ns,
             Labels = [IstioConfigLabelKey \<mapsto> ''true''], Data = map_of (e1_data e)\<rparr> = (r, s2)"
        by (cases "Create (e1_client e) s1
            \<lparr>cm_Name = e1_configMapName e, cm_Namespace = ns,
             Labels = [IstioConfigLabelKey \<mapsto> ''true''], Data = map_of (e1_data e)\<rparr>") auto
      show ?thesis
        using assms by (simp add: enforcer1_get_notfound [OF get [unfolded Inl] True refl cr])
    next
      case False
      show ?thesis
        using assms by (simp add: enforcer1_get_error [OF get [unfolded Inl] False])
    qed
  next
    case (Inr cm)
    show ?thesis
      using assms by (simp add: enforcer1_get_found [OF get [unfolded Inr] refl])
  qed
qed

lemma call_GetConfigMap_ops:
  "snd (snd (call_GetConfigMap c key (s, tr))) = tr @ [OpGetConfigMap key]"
  by (simp add: call_GetConfigMap_def split: prod.splits)

lemma call_GetNamespace_ops:
  "snd (snd (call_GetNamespace c key (s, tr))) = tr @ [OpGetNamespace key]"
  by (simp add: call_GetNamespace_def split: prod.splits)

lemma configmap1_Reconcile_ops:
  "list_all get_create_update (snd (snd (configmap1_Reconcile c req (s, []))))"
proof -
  obtain res s1 tr1 where get: "call_GetConfigMap (c1_client c) req (s, []) = (res, s1, tr1)"
    by (cases "call_GetConfigMap (c1_client c) req (s, [])") auto
  with call_GetConfigMap_ops [of "c1_client c" req s "[]"]
  have tr1: "list_all get_create_update tr1" by simp
  show ?thesis
    using get enforcer1_ops [OF tr1, of "c1_enforcer c" "nn_Namespace req" s1]
    by (cases res) (simp_all add: configmap1_Reconcile_def tr1)
qed

lemma namespace1_Reconcile_ops:
  "list_all get_create_update (snd (snd (namespace1_Reconcile n req (s, []))))"
proof -
  obtain res s1 tr1 where get: "call_GetNamespace (n1_client n) req (s, []) = (res, s1, tr1)"
    by (cases "call_GetNamespace (n1_client n) req (s, [])") auto
  with call_GetNamespace_ops [of "n1_client n" req s "[]"]
  have tr1: "list_all get_create_update tr1" by simp
  show ?thesis
    using get enforcer1_ops [OF tr1, of "n1_enforcer n" "nn_Name req" s1]
    by (cases res) (simp_all add: namespace1_Reconcile_def tr1)
qed

lemma namespace2_Reconcile_ops:
  "list_all get_create_update (snd (snd (namespace2_Reconcile n req (s, []))))"
proof -
  obtain res s1 tr1 where get: "call_GetNamespace (n2_client n) req (s, []) = (res, s1, tr1)"
    by (cases "call_GetNamespace (n2_client n) req (s, [])") auto
  with call_GetNamespace_ops [of "n2_client n" req s "[]"]
  have tr1: "list_all get_create_update tr1" by simp
  show ?thesis
    using get enforcer1_ops [OF tr1, of "as_enforcer1 (n2_enforcer n)" "nn_Name req" s1]
    by (cases res) (simp_all add: namespace2_Reconcile_def tr1 enforcer2_as_enforcer1)
qed

text \<open>
  Claim C9. Every call that \<open>enforcer.configmap\<close> and the two \<open>Reconcile\<close> functions
  make on the client, in either revision and on every client and state, is a get, a
  create or an update: none is a delete.
\<close>

theorem controller_never_deletes:
  "list_all get_create_update (snd (snd (enforcer1_configmap e1 namespace (s, []))))
   \<and> list_all get_create_update (snd (snd (configmap1_Reconcile c1 req (s, []))))
   \<and> list_all get_create_update (snd (snd (namespace1_Reconcile n1 req (s, []))))
   \<and> list_all get_create_update (snd (snd (enforcer2_configmap e2 namespace (s, []))))
   \<and> list_all get_create_update (snd (snd (configmap2_Reconcile c2 req (s, []))))
   \<and> list_all get_create_update (snd (snd (namespace2_Reconcile n2 req (s, []))))"
  by (simp add: enforcer1_ops configmap1_Reconcile_ops namespace1_Reconcile_ops
        namespace2_Reconcile_ops configmap2_Reconcile_def enforcer2_as_enforcer1)


subsection \<open>Idempotence of convergence on the in-memory cluster\<close>

lemma mem_get:
  "GetConfigMap mem_Client s key =
     (case lookup_configmap s key of None \<Rightarrow> (Inl NotFound, s) | Some cm \<Rightarrow> (Inr cm, s))"
  by (simp add: mem_Client_def mem_GetConfigMap_def)

lemma lookup_key: "lookup_configmap s key = Some cm \<Longrightarrow> key_of cm = key"
  by (auto simp add: lookup_configmap_def find_Some_iff)

lemma find_append_new:
  "find P xs = None \<Longrightarrow> P y \<Longrightarrow> find P (xs @ [y]) = Some y"
  by (induction xs) (auto split: if_splits)

lemma find_replace:
  "find (\<lambda>x. f x = k) xs = Some x \<Longrightarrow> f y = k \<Longrightarrow>
   find (\<lambda>x. f x = k) (map (\<lambda>old. if f old = k then y else old) xs) = Some y"
  by (induction xs) (auto split: if_splits)

lemma has_desired_new:
  assumes "distinct (map fst dat)"
  shows "has_desired dat \<lparr>cm_Name = nm, cm_Namespace = ns,
           Labels = [IstioConfigLabelKey \<mapsto> ''true''], Data = map_of dat\<rparr>"
  using assms by (auto simp add: has_desired_def list_all_iff)

lemma has_desired_merge:
  assumes "distinct (map fst dat)"
  shows "has_desired dat (cm\<lparr>Data := Data cm ++ map_of dat,
           Labels := (Labels cm)(IstioConfigLabelKey \<mapsto> ''true'')\<rparr>)"
  using assms by (auto simp add: has_desired_def list_all_iff map_add_def)

lemma enforcer1_mem_absent:
  assumes c: "e1_client e = mem_Client"
    and abs: "lookup_configmap s (NamespacedName ns (e1_configMapName e)) = None"
    and obj: "obj = \<lparr>cm_Name = e1_configMapName e, cm_Namespace = ns,
                 Labels = [IstioConfigLabelKey \<mapsto> ''true''], Data = map_of (e1_data e)\<rparr>"
  shows "enforcer1_configmap e ns (s, tr) =
           (None, s\<lparr>cl_configmaps := cl_configmaps s @ [obj]\<rparr>,
            tr @ [OpGetConfigMap (NamespacedName ns (e1_configMapName e)), OpCreate obj])"
proof -
  have get: "GetConfigMap (e1_client e) s (NamespacedName ns (e1_configMapName e)) =
               (Inl NotFound, s)"
    using abs by (simp add: c mem_get)
  have k: "key_of obj = NamespacedName ns (e1_configMapName e)"
    by (simp add: obj key_of_def)
  have cr: "Create (e1_client e) s obj = (None, s\<lparr>cl_configmaps := cl_configmaps s @ [obj]\<rparr>)"
    using abs by (simp add: c mem_Client_def mem_Create_def k)
  have nf: "IsNotFound NotFound"
    by (simp add: IsNotFound_def)
  show ?thesis
    using enforcer1_get_notfound [OF get nf obj cr, of tr] by simp
qed

lemma enforcer1_mem_same:
  assumes c: "e1_client e = mem_Client"
    and d: "distinct (map fst (e1_data e))"
    and pres: "lookup_configmap s (NamespacedName ns (e1_configMapName e)) = Some cm"
    and des: "has_desired (e1_data e) cm"
  shows "enforcer1_configmap e ns (s, tr) =
           (None, s, tr @ [OpGetConfigMap (NamespacedName ns (e1_configMapName e))])"
proof -
  have get: "GetConfigMap (e1_client e) s (NamespacedName ns (e1_configMapName e)) = (Inr cm, s)"
    using pres by (simp add: c mem_get)
  show ?thesis
    using des by (simp add: enforcer1_get_found [OF get refl] range_data_distinct [OF d]
                    has_desired_def)
qed

lemma enforcer1_mem_differs:
  assumes c: "e1_client e = mem_Client"
    and d: "distinct (map fst (e1_data e))"
    and pres: "lookup_configmap s (NamespacedName ns (e1_configMapName e)) = Some cm"
    and des: "\<not> has_desired (e1_data e) cm"
    and obj: "obj = cm\<lparr>Data := Data cm ++ map_of (e1_data e),
                        Labels := (Labels cm)(IstioConfigLabelKey \<mapsto> ''true'')\<rparr>"
  shows "enforcer1_configmap e ns (s, tr) =
           (None,
            s\<lparr>cl_configmaps :=
                 map (\<lambda>old. if key_of old = NamespacedName ns (e1_configMapName e) then obj
                            else old) (cl_configmaps s)\<rparr>,
            tr @ [OpGetConfigMap (NamespacedName ns (e1_configMapName e)), OpUpdate obj])"
proof -
  have get: "GetConfigMap (e1_client e) s (NamespacedName ns (e1_configMapName e)) = (Inr cm, s)"
    using pres by (simp add: c mem_get)
  have k: "key_of obj = NamespacedName ns (e1_configMapName e)"
    using lookup_key [OF pres] by (simp add: obj key_of_def)
  have up: "Update (e1_client e) s obj =
              (None, s\<lparr>cl_configmaps :=
                 map (\<lambda>old. if key_of old = NamespacedName ns (e1_configMapName e) then obj
                            else old) (cl_configmaps s)\<rparr>)"
    using pres by (simp add: c mem_Client_def mem_Update_def k)
  have fstd: "fst (range_data (e1_data e) (Data cm) False) = Data cm ++ map_of (e1_data e)"
    by (simp add: range_data_distinct [OF d])
  have nm: "snd (range_data (e1_data e) (Data cm) False) \<or>
            Labels cm IstioConfigLabelKey \<noteq> Some ''true''"
    using des by (simp add: range_data_distinct [OF d] has_desired_def)
  have obj': "obj = cm\<lparr>Data := fst (range_data (e1_data e) (Data cm) False),
                   Labels := (Labels cm)(IstioConfigLabelKey \<mapsto> ''true'')\<rparr>"
    by (simp add: obj fstd)
  show ?thesis
    using nm by (simp only: enforcer1_get_found [OF get obj'] up if_True fst_conv snd_conv
                  option.map)
qed


lemma enforcer1_idempotent_run:
  assumes c: "e1_client e = mem_Client"
    and d: "distinct (map fst (e1_data e))"
  shows "idempotent_run (enforcer1_configmap e ns) (e1_data e)
           (NamespacedName ns (e1_configMapName e)) s"
proof (cases "lookup_configmap s (NamespacedName ns (e1_configMapName e))")
  case None
  define obj where "obj = \<lparr>cm_Name = e1_configMapName e, cm_Namespace = ns,
                 Labels = [IstioConfigLabelKey \<mapsto> ''true''], Data = map_of (e1_data e)\<rparr>"
  define s1 where "s1 = s\<lparr>cl_configmaps := cl_configmaps s @ [obj]\<rparr>"
  have first: "enforcer1_configmap e ns (s, []) =
      (None, s1, [OpGetConfigMap (NamespacedName ns (e1_configMapName e)), OpCreate obj])"
    using enforcer1_mem_absent [OF c None obj_def, of "[]"] by (simp add: s1_def)
  have k: "key_of obj = NamespacedName ns (e1_configMapName e)"
    by (simp add: obj_def key_of_def)
  have look: "lookup_configmap s1 (NamespacedName ns (e1_configMapName e)) = Some obj"
    using None k by (simp add: lookup_configmap_def s1_def find_append_new)
  have des: "has_desired (e1_data e) obj"
    unfolding obj_def by (rule has_desired_new [OF d])
  have second: "enforcer1_configmap e ns (s1, []) =
      (None, s1, [OpGetConfigMap (NamespacedName ns (e1_configMapName e))])"
    using enforcer1_mem_same [OF c d look des, of "[]"] by simp
  show ?thesis
    using None by (simp add: idempotent_run_def first second writes_def obj_def)
next
  case (Some cm)
  show ?thesis
  proof (cases "has_desired (e1_data e) cm")
    case True
    have first: "enforcer1_configmap e ns (s, []) =
        (None, s, [OpGetConfigMap (NamespacedName ns (e1_configMapName e))])"
      using enforcer1_mem_same [OF c d Some True, of "[]"] by simp
    show ?thesis
      using Some True by (simp add: idempotent_run_def first writes_def)
  next
    case False
    define obj where "obj = cm\<lparr>Data := Data cm ++ map_of (e1_data e),
                        Labels := (Labels cm)(IstioConfigLabelKey \<mapsto> ''true'')\<rparr>"
    define s1 where "s1 = s\<lparr>cl_configmaps :=
                 map (\<lambda>old. if key_of old = NamespacedName ns (e1_configMapName e) then obj
                            else old) (cl_configmaps s)\<rparr>"
    have first: "enforcer1_configmap e ns (s, []) =
        (None, s1, [OpGetConfigMap (NamespacedName ns (e1_configMapName e)), OpUpdate obj])"
      using enforcer1_mem_differs [OF c d Some False obj_def, of "[]"] by (simp add: s1_def)
    have k: "key_of obj = NamespacedName ns (e1_configMapName e)"
      using lookup_key [OF Some] by (simp add: obj_def key_of_def)
    have look: "lookup_configmap s1 (NamespacedName ns (e1_configMapName e)) = Some obj"
      using Some k find_replace [of key_of "NamespacedName ns (e1_configMapName e)"
                                    "cl_configmaps s" cm obj]
      by (simp add: lookup_configmap_def s1_def)
    have des: "has_desired (e1_data e) obj"
      unfolding obj_def by (rule has_desired_merge [OF d])
    have second: "enforcer1_configmap e ns (s1, []) =
        (None, s1, [OpGetConfigMap (NamespacedName ns (e1_configMapName e))])"
      using enforcer1_mem_same [OF c d look des, of "[]"] by simp
    show ?thesis
      using Some False by (simp add: idempotent_run_def first second writes_def obj_def)
  qed
qed

text \<open>
  Claim C5, as amended. On the in-memory cluster, two calls of \<open>enforcer.configmap\<close> in
  succession with the same desired content: neither fails; the first call makes at most
  one write: when the object is absent, the create of the object with the desired data
  and the marker label; when the object is there and lacks a desired entry or the
  label, one update; when it has the desired entries and the label already, no write.
  The second call makes no write in any case and leaves the cluster as it is. This holds
  for the first revision with any data of distinct keys and for the second revision.
\<close>

theorem converge_twice_writes_at_most_once:
  "(distinct (map fst dat) \<longrightarrow>
      idempotent_run
        (enforcer1_configmap \<lparr>e1_client = mem_Client, e1_data = dat, e1_configMapName = name\<rparr>
           namespace)
        dat (NamespacedName namespace name) s)
   \<and> idempotent_run
        (enforcer2_configmap \<lparr>e2_client = mem_Client, e2_rootCA = rootCA, e2_configMapName = name\<rparr>
           namespace)
        [(''root-cert.pem'', rootCA ())] (NamespacedName namespace name) s"
proof (intro conjI impI)
  assume d: "distinct (map fst dat)"
  show "idempotent_run
        (enforcer1_configmap \<lparr>e1_client = mem_Client, e1_data = dat, e1_configMapName = name\<rparr>
           namespace)
        dat (NamespacedName namespace name) s"
    using enforcer1_idempotent_run
      [of "\<lparr>e1_client = mem_Client, e1_data = dat, e1_configMapName = name\<rparr>" namespace s] d
    by simp
next
  have eq: "enforcer2_configmap
              \<lparr>e2_client = mem_Client, e2_rootCA = rootCA, e2_configMapName = name\<rparr> namespace =
            enforcer1_configmap
              \<lparr>e1_client = mem_Client, e1_data = [(''root-cert.pem'', rootCA ())],
               e1_configMapName = name\<rparr> namespace"
    by (rule ext) (simp add: enforcer2_as_enforcer1 as_enforcer1_def)
  show "idempotent_run
        (enforcer2_configmap \<lparr>e2_client = mem_Client, e2_rootCA = rootCA, e2_configMapName = name\<rparr>
           namespace)
        [(''root-cert.pem'', rootCA ())] (NamespacedName namespace name) s"
    unfolding eq
    using enforcer1_idempotent_run
      [of "\<lparr>e1_client = mem_Client, e1_data = [(''root-cert.pem'', rootCA ())],
            e1_configMapName = name\<rparr>" namespace s]
    by simp
qed

text \<open>
  Claim C5 as stated asks for exactly one write over the two calls. On a cluster whose
  object is as desired already, the two calls make no write at all.
\<close>

theorem converge_twice_counterexample:
  "converged [(''root-cert.pem'', ''PEM'')] (NamespacedName ''default'' ''istio-ca-root-cert'')
     ex_converged
   \<and> writes_of_two_calls (enforcer2_configmap ex_enforcer2 ''default'') ex_converged = []
   \<and> length (writes_of_two_calls (enforcer2_configmap ex_enforcer2 ''default'') ex_converged) \<noteq> 1"
proof -
  have run: "enforcer2_configmap ex_enforcer2 ''default'' (ex_converged, []) =
      (None, ex_converged, [OpGetConfigMap (NamespacedName ''default'' ''istio-ca-root-cert'')])"
    by (simp add: enforcer2_configmap_def ex_defs mem_defs call_defs IstioConfigLabelKey_def
          IsNotFound_def Let_def)
  have conv: "converged [(''root-cert.pem'', ''PEM'')]
      (NamespacedName ''default'' ''istio-ca-root-cert'') ex_converged"
    by (simp add: converged_def has_desired_def ex_defs mem_defs IstioConfigLabelKey_def)
  show ?thesis
    using conv by (simp add: writes_of_two_calls_def run writes_def)
qed

text \<open>On the cluster without the object the two calls make one write, the create.\<close>

lemma ex_empty_run:
  "writes_of_two_calls (enforcer2_configmap ex_enforcer2 ''default'') ex_empty =
     [OpCreate \<lparr>cm_Name = ''istio-ca-root-cert'', cm_Namespace = ''default'',
                Labels = [''istio.io/config'' \<mapsto> ''true''],
                Data = [''root-cert.pem'' \<mapsto> ''PEM'']\<rparr>]"
  by (simp add: writes_of_two_calls_def enforcer2_configmap_def ex_defs mem_defs call_defs
        IstioConfigLabelKey_def IsNotFound_def Let_def writes_def)


text \<open>
  The amended claim at the cluster without the object: the keys of the data are
  distinct, the object is absent, and the cluster is not converged.
\<close>

theorem converge_twice_writes_at_most_once_witness:
  "distinct (map fst [(''root-cert.pem'', ''PEM'')])
   \<and> lookup_configmap ex_empty (NamespacedName ''default'' ''istio-ca-root-cert'') = None
   \<and> \<not> converged [(''root-cert.pem'', ''PEM'')]
         (NamespacedName ''default'' ''istio-ca-root-cert'') ex_empty
   \<and> idempotent_run
        (enforcer1_configmap
           \<lparr>e1_client = mem_Client, e1_data = [(''root-cert.pem'', ''PEM'')],
            e1_configMapName = ''istio-ca-root-cert''\<rparr> ''default'')
        [(''root-cert.pem'', ''PEM'')] (NamespacedName ''default'' ''istio-ca-root-cert'') ex_empty
   \<and> idempotent_run
        (enforcer2_configmap
           \<lparr>e2_client = mem_Client, e2_rootCA = ex_rootCA,
            e2_configMapName = ''istio-ca-root-cert''\<rparr> ''default'')
        [(''root-cert.pem'', ex_rootCA ())] (NamespacedName ''default'' ''istio-ca-root-cert'')
        ex_empty"
proof -
  note main = converge_twice_writes_at_most_once
      [of "[(''root-cert.pem'', ''PEM'')]" "''istio-ca-root-cert''" "''default''" ex_empty ex_rootCA]
  have d: "distinct (map fst [(''root-cert.pem'', ''PEM'')])"
    by simp
  have absent: "lookup_configmap ex_empty (NamespacedName ''default'' ''istio-ca-root-cert'') = None"
    by (simp add: lookup_configmap_def ex_empty_def)
  have nconv: "\<not> converged [(''root-cert.pem'', ''PEM'')]
         (NamespacedName ''default'' ''istio-ca-root-cert'') ex_empty"
    by (simp add: converged_def absent)
  show ?thesis
    by (rule conjI [OF d conjI [OF absent conjI [OF nconv
          conjI [OF main [THEN conjunct1, THEN mp, OF d] main [THEN conjunct2]]]]])
qed

subsection \<open>The update merges\<close>

lemma enforcer1_merges:
  assumes get: "GetConfigMap (e1_client e) s (NamespacedName ns (e1_configMapName e)) = (Inr cm, s1)"
    and d: "distinct (map fst (e1_data e))"
  shows "writes (snd (snd (enforcer1_configmap e ns (s, [])))) = [] \<or>
         (\<exists>obj. writes (snd (snd (enforcer1_configmap e ns (s, [])))) = [OpUpdate obj] \<and>
                merged (e1_data e) cm obj)"
proof -
  define obj where "obj = cm\<lparr>Data := fst (range_data (e1_data e) (Data cm) False),
                   Labels := (Labels cm)(IstioConfigLabelKey \<mapsto> ''true'')\<rparr>"
  have dat: "Data obj = Data cm ++ map_of (e1_data e)"
    by (simp add: obj_def range_data_distinct [OF d])
  have other: "\<forall>k. k \<notin> fst ` set (e1_data e) \<longrightarrow> Data obj k = Data cm k"
    by (simp add: dat map_add_def map_of_eq_None_iff [THEN iffD2])
  have desired: "\<forall>(k, v) \<in> set (e1_data e). Data obj k = Some v"
    using d by (auto simp add: dat map_add_def)
  have m: "merged (e1_data e) cm obj"
    unfolding merged_def using other desired by (simp add: obj_def)
  show ?thesis
    using m by (simp add: enforcer1_get_found [OF get obj_def] writes_def)
qed

text \<open>
  Claim C6. When the read finds an object, \<open>enforcer.configmap\<close> writes nothing or makes
  one update, of the object read with the desired entries and the marker label merged
  in: every data key that is not a desired one keeps its value, every label other
  than the marker keeps its value, and the name and namespace are unchanged. This holds
  on every client, for the first revision with data of distinct keys and for the second
  with its single entry.
\<close>

theorem converge_merges:
  "(GetConfigMap (e1_client e1) s (NamespacedName namespace (e1_configMapName e1)) = (Inr cm, s1)
    \<and> distinct (map fst (e1_data e1)) \<longrightarrow>
      writes (snd (snd (enforcer1_configmap e1 namespace (s, [])))) = [] \<or>
      (\<exists>obj. writes (snd (snd (enforcer1_configmap e1 namespace (s, [])))) = [OpUpdate obj] \<and>
             merged (e1_data e1) cm obj))
   \<and> (GetConfigMap (e2_client e2) s (NamespacedName namespace (e2_configMapName e2)) = (Inr cm, s1)
      \<longrightarrow>
      writes (snd (snd (enforcer2_configmap e2 namespace (s, [])))) = [] \<or>
      (\<exists>obj. writes (snd (snd (enforcer2_configmap e2 namespace (s, [])))) = [OpUpdate obj] \<and>
             merged [(''root-cert.pem'', e2_rootCA e2 ())] cm obj))"
proof (intro conjI impI)
  assume "GetConfigMap (e1_client e1) s (NamespacedName namespace (e1_configMapName e1)) = (Inr cm, s1)
    \<and> distinct (map fst (e1_data e1))"
  then show "writes (snd (snd (enforcer1_configmap e1 namespace (s, [])))) = [] \<or>
      (\<exists>obj. writes (snd (snd (enforcer1_configmap e1 namespace (s, [])))) = [OpUpdate obj] \<and>
             merged (e1_data e1) cm obj)"
    using enforcer1_merges [of e1 s namespace cm s1] by simp
next
  assume "GetConfigMap (e2_client e2) s (NamespacedName namespace (e2_configMapName e2)) = (Inr cm, s1)"
  then show "writes (snd (snd (enforcer2_configmap e2 namespace (s, [])))) = [] \<or>
      (\<exists>obj. writes (snd (snd (enforcer2_configmap e2 namespace (s, [])))) = [OpUpdate obj] \<and>
             merged [(''root-cert.pem'', e2_rootCA e2 ())] cm obj)"
    using enforcer1_merges [of "as_enforcer1 e2" s namespace cm s1]
    by (simp add: enforcer2_as_enforcer1) (simp add: as_enforcer1_def)
qed

text \<open>
  The theorem at the object with the key \<open>other\<close> and neither the entry nor the
  label: the update keeps \<open>other\<close> and adds \<open>root-cert.pem\<close>.
\<close>

theorem converge_merges_witness:
  "GetConfigMap (e1_client ex_enforcer1) ex_drifted
       (NamespacedName ''default'' (e1_configMapName ex_enforcer1)) = (Inr ex_drifted_cm, ex_drifted)
   \<and> distinct (map fst (e1_data ex_enforcer1))
   \<and> (\<exists>obj. writes (snd (snd (enforcer1_configmap ex_enforcer1 ''default'' (ex_drifted, [])))) =
               [OpUpdate obj] \<and>
             Data obj ''other'' = Some ''x'' \<and> Data obj ''root-cert.pem'' = Some ''PEM'')
   \<and> GetConfigMap (e2_client ex_enforcer2) ex_drifted
       (NamespacedName ''default'' (e2_configMapName ex_enforcer2)) = (Inr ex_drifted_cm, ex_drifted)
   \<and> (\<exists>obj. writes (snd (snd (enforcer2_configmap ex_enforcer2 ''default'' (ex_drifted, [])))) =
               [OpUpdate obj] \<and>
             Data obj ''other'' = Some ''x'' \<and> Data obj ''root-cert.pem'' = Some ''PEM'')"
proof -
  note main = converge_merges
      [of ex_enforcer1 ex_drifted "''default''" ex_drifted_cm ex_drifted ex_enforcer2]
  have get1: "GetConfigMap (e1_client ex_enforcer1) ex_drifted
       (NamespacedName ''default'' (e1_configMapName ex_enforcer1)) = (Inr ex_drifted_cm, ex_drifted)"
    by (simp add: ex_defs mem_defs)
  have d: "distinct (map fst (e1_data ex_enforcer1))"
    by (simp add: ex_enforcer1_def)
  have get2: "GetConfigMap (e2_client ex_enforcer2) ex_drifted
       (NamespacedName ''default'' (e2_configMapName ex_enforcer2)) = (Inr ex_drifted_cm, ex_drifted)"
    by (simp add: ex_defs mem_defs)
  have w1: "writes (snd (snd (enforcer1_configmap ex_enforcer1 ''default'' (ex_drifted, [])))) \<noteq> []"
    by (simp add: enforcer1_configmap_def ex_defs mem_defs call_defs IstioConfigLabelKey_def
          IsNotFound_def Let_def writes_def)
  have w2: "writes (snd (snd (enforcer2_configmap ex_enforcer2 ''default'' (ex_drifted, [])))) \<noteq> []"
    by (simp add: enforcer2_configmap_def ex_defs mem_defs call_defs IstioConfigLabelKey_def
          IsNotFound_def Let_def writes_def)
  have keep: "merged [(''root-cert.pem'', ''PEM'')] ex_drifted_cm obj \<Longrightarrow>
              Data obj ''other'' = Some ''x'' \<and> Data obj ''root-cert.pem'' = Some ''PEM''" for obj
    by (simp add: merged_def ex_drifted_cm_def)
  have dat1: "e1_data ex_enforcer1 = [(''root-cert.pem'', ''PEM'')]"
    by (simp add: ex_enforcer1_def)
  have dat2: "[(''root-cert.pem'', e2_rootCA ex_enforcer2 ())] = [(''root-cert.pem'', ''PEM'')]"
    by (simp add: ex_enforcer2_def ex_rootCA_def)
  have r1: "\<exists>obj. writes (snd (snd (enforcer1_configmap ex_enforcer1 ''default'' (ex_drifted, [])))) =
               [OpUpdate obj] \<and>
             Data obj ''other'' = Some ''x'' \<and> Data obj ''root-cert.pem'' = Some ''PEM''"
    using main [THEN conjunct1, THEN mp, OF conjI [OF get1 d]] w1 keep
    unfolding dat1 by blast
  have r2: "\<exists>obj. writes (snd (snd (enforcer2_configmap ex_enforcer2 ''default'' (ex_drifted, [])))) =
               [OpUpdate obj] \<and>
             Data obj ''other'' = Some ''x'' \<and> Data obj ''root-cert.pem'' = Some ''PEM''"
    using main [THEN conjunct2, THEN mp, OF get2] w2 keep
    unfolding dat2 by blast
  show ?thesis
    by (rule conjI [OF get1 conjI [OF d conjI [OF r1 conjI [OF get2 r2]]]])
qed

subsection \<open>The namespace reconciler\<close>

text \<open>
  Claim C7. \<open>namespace.Reconcile\<close> of both revisions, by the answer of the read of the
  namespace: when it is not found, or found with the phase terminating, the result is
  success and the read is the only call made; when it is found in another phase, the
  result is that of \<open>enforcer.configmap\<close> for the namespace, run after the read, so an
  error of the enforcer is returned; when the read fails otherwise, its error is
  returned, wrapped, and the read is the only call made.
\<close>

theorem namespace_Reconcile_cases:
  "(GetNamespace c s req = (Inl err, s1) \<and> IsNotFound err \<longrightarrow>
      namespace1_Reconcile \<lparr>n1_client = c, n1_enforcer = e1\<rparr> req (s, []) =
        (None, s1, [OpGetNamespace req]) \<and>
      namespace2_Reconcile \<lparr>n2_client = c, n2_enforcer = e2\<rparr> req (s, []) =
        (None, s1, [OpGetNamespace req]))
   \<and> (GetNamespace c s req = (Inr ns, s1) \<and> Phase ns = NamespaceTerminating \<longrightarrow>
      namespace1_Reconcile \<lparr>n1_client = c, n1_enforcer = e1\<rparr> req (s, []) =
        (None, s1, [OpGetNamespace req]) \<and>
      namespace2_Reconcile \<lparr>n2_client = c, n2_enforcer = e2\<rparr> req (s, []) =
        (None, s1, [OpGetNamespace req]))
   \<and> (GetNamespace c s req = (Inr ns, s1) \<and> Phase ns \<noteq> NamespaceTerminating \<longrightarrow>
      namespace1_Reconcile \<lparr>n1_client = c, n1_enforcer = e1\<rparr> req (s, []) =
        enforcer1_configmap e1 (nn_Name req) (s1, [OpGetNamespace req]) \<and>
      namespace2_Reconcile \<lparr>n2_client = c, n2_enforcer = e2\<rparr> req (s, []) =
        enforcer2_configmap e2 (nn_Name req) (s1, [OpGetNamespace req]))
   \<and> (GetNamespace c s req = (Inl err, s1) \<and> \<not> IsNotFound err \<longrightarrow>
      namespace1_Reconcile \<lparr>n1_client = c, n1_enforcer = e1\<rparr> req (s, []) =
        (Some (FailedToGet req err), s1, [OpGetNamespace req]) \<and>
      namespace2_Reconcile \<lparr>n2_client = c, n2_enforcer = e2\<rparr> req (s, []) =
        (Some (FailedToGet req err), s1, [OpGetNamespace req]))"
  by (simp add: namespace1_Reconcile_def namespace2_Reconcile_def call_GetNamespace_def)

text \<open>
  The theorem at a namespace that does not exist, a terminating one, an active one, and
  on the client whose reads fail.
\<close>

theorem namespace_Reconcile_cases_witness:
  "(namespace1_Reconcile \<lparr>n1_client = mem_Client, n1_enforcer = ex_enforcer1\<rparr>
      (NamespacedName [] ''missing'') (ex_empty, []) =
        (None, ex_empty, [OpGetNamespace (NamespacedName [] ''missing'')]) \<and>
    namespace2_Reconcile \<lparr>n2_client = mem_Client, n2_enforcer = ex_enforcer2\<rparr>
      (NamespacedName [] ''missing'') (ex_empty, []) =
        (None, ex_empty, [OpGetNamespace (NamespacedName [] ''missing'')]))
   \<and> (namespace1_Reconcile \<lparr>n1_client = mem_Client, n1_enforcer = ex_enforcer1\<rparr>
      (NamespacedName [] ''old'') (ex_empty, []) =
        (None, ex_empty, [OpGetNamespace (NamespacedName [] ''old'')]) \<and>
    namespace2_Reconcile \<lparr>n2_client = mem_Client, n2_enforcer = ex_enforcer2\<rparr>
      (NamespacedName [] ''old'') (ex_empty, []) =
        (None, ex_empty, [OpGetNamespace (NamespacedName [] ''old'')]))
   \<and> (namespace1_Reconcile \<lparr>n1_client = mem_Client, n1_enforcer = ex_enforcer1\<rparr>
      (NamespacedName [] ''default'') (ex_empty, []) =
        enforcer1_configmap ex_enforcer1 ''default''
          (ex_empty, [OpGetNamespace (NamespacedName [] ''default'')]) \<and>
    namespace2_Reconcile \<lparr>n2_client = mem_Client, n2_enforcer = ex_enforcer2\<rparr>
      (NamespacedName [] ''default'') (ex_empty, []) =
        enforcer2_configmap ex_enforcer2 ''default''
          (ex_empty, [OpGetNamespace (NamespacedName [] ''default'')]))
   \<and> (namespace1_Reconcile \<lparr>n1_client = failing_Client, n1_enforcer = ex_enforcer1\<rparr>
      (NamespacedName [] ''default'') (ex_empty, []) =
        (Some (FailedToGet (NamespacedName [] ''default'') (ServerError ''timeout'')), ex_empty,
         [OpGetNamespace (NamespacedName [] ''default'')]) \<and>
    namespace2_Reconcile \<lparr>n2_client = failing_Client, n2_enforcer = ex_enforcer2\<rparr>
      (NamespacedName [] ''default'') (ex_empty, []) =
        (Some (FailedToGet (NamespacedName [] ''default'') (ServerError ''timeout'')), ex_empty,
         [OpGetNamespace (NamespacedName [] ''default'')]))"
proof -
  have missing: "GetNamespace mem_Client ex_empty (NamespacedName [] ''missing'') =
                   (Inl NotFound, ex_empty) \<and> IsNotFound NotFound"
    by (simp add: ex_defs mem_defs IsNotFound_def)
  have old: "GetNamespace mem_Client ex_empty (NamespacedName [] ''old'') =
               (Inr \<lparr>ns_Name = ''old'', Phase = ''Terminating''\<rparr>, ex_empty) \<and>
             Phase \<lparr>ns_Name = ''old'', Phase = ''Terminating''\<rparr> = NamespaceTerminating"
    by (simp add: ex_defs mem_defs NamespaceTerminating_def)
  have active: "GetNamespace mem_Client ex_empty (NamespacedName [] ''default'') =
               (Inr \<lparr>ns_Name = ''default'', Phase = ''Active''\<rparr>, ex_empty) \<and>
             Phase \<lparr>ns_Name = ''default'', Phase = ''Active''\<rparr> \<noteq> NamespaceTerminating"
    by (simp add: ex_defs mem_defs NamespaceTerminating_def)
  have failing: "GetNamespace failing_Client ex_empty (NamespacedName [] ''default'') =
               (Inl (ServerError ''timeout''), ex_empty) \<and> \<not> IsNotFound (ServerError ''timeout'')"
    by (simp add: failing_Client_def IsNotFound_def)
  note c1 = namespace_Reconcile_cases
      [of mem_Client ex_empty "NamespacedName [] ''missing''" NotFound ex_empty
          ex_enforcer1 ex_enforcer2,
       THEN conjunct1, THEN mp, OF missing]
  note c2 = namespace_Reconcile_cases
      [of mem_Client ex_empty "NamespacedName [] ''old''" _ ex_empty
          ex_enforcer1 ex_enforcer2 "\<lparr>ns_Name = ''old'', Phase = ''Terminating''\<rparr>",
       THEN conjunct2, THEN conjunct1, THEN mp, OF old]
  note c3 = namespace_Reconcile_cases
      [of mem_Client ex_empty "NamespacedName [] ''default''" _ ex_empty
          ex_enforcer1 ex_enforcer2 "\<lparr>ns_Name = ''default'', Phase = ''Active''\<rparr>",
       THEN conjunct2, THEN conjunct2, THEN conjunct1, THEN mp, OF active]
  note c4 = namespace_Reconcile_cases
      [of failing_Client ex_empty "NamespacedName [] ''default''" "ServerError ''timeout''" ex_empty
          ex_enforcer1 ex_enforcer2,
       THEN conjunct2, THEN conjunct2, THEN conjunct2, THEN mp, OF failing]
  from c3 have c3': "namespace1_Reconcile \<lparr>n1_client = mem_Client, n1_enforcer = ex_enforcer1\<rparr>
      (NamespacedName [] ''default'') (ex_empty, []) =
        enforcer1_configmap ex_enforcer1 ''default''
          (ex_empty, [OpGetNamespace (NamespacedName [] ''default'')]) \<and>
    namespace2_Reconcile \<lparr>n2_client = mem_Client, n2_enforcer = ex_enforcer2\<rparr>
      (NamespacedName [] ''default'') (ex_empty, []) =
        enforcer2_configmap ex_enforcer2 ''default''
          (ex_empty, [OpGetNamespace (NamespacedName [] ''default'')])"
    by (simp only: namespaced_name.sel)
  show ?thesis
    by (rule conjI [OF c1 conjI [OF c2 conjI [OF c3' c4]]])
qed


end
